theory Spec2Isabelle
  imports Main
begin

section \<open>Python strings\<close>

text \<open>
  A Python \<open>str\<close> is a sequence of code points. The model is a \<open>char list\<close>, one
  \<open>char\<close> for each code point from U+0000 to U+00FF (Latin-1); code points above that
  are outside the model. \<open>code c\<close> is \<open>ord(c)\<close>.
\<close>

definition code :: "char \<Rightarrow> nat" where
  "code c = of_char c"

text \<open>
  \<open>str.isspace\<close> on one code point, which is also what \<open>\s\<close> of \<open>re\<close> matches in a
  \<open>str\<close> pattern: TAB, LF, VT, FF, CR, the separators U+001C to U+001F, the space, NEL
  (U+0085) and the no-break space (U+00A0).
\<close>

definition isspace :: "char \<Rightarrow> bool" where
  "isspace c = (let n = code c in (9 \<le> n \<and> n \<le> 13) \<or> (28 \<le> n \<and> n \<le> 32) \<or> n = 133 \<or> n = 160)"

text \<open>
  \<open>str.lower\<close> on one code point: A to Z, and the Latin-1 capitals U+00C0 to U+00DE
  but the multiplication sign U+00D7, move up by 32.
\<close>

definition lower_char :: "char \<Rightarrow> char" where
  "lower_char c =
     (let n = code c in
      if (65 \<le> n \<and> n \<le> 90) \<or> (192 \<le> n \<and> n \<le> 222 \<and> n \<noteq> 215) then char_of (n + 32) else c)"

definition lower :: "string \<Rightarrow> string" where
  "lower s = map lower_char s"

text \<open>\<open>s.strip()\<close>: the leading and the trailing white space go.\<close>

definition strip :: "string \<Rightarrow> string" where
  "strip s = rev (dropWhile isspace (rev (dropWhile isspace s)))"

text \<open>\<open>s.startswith(p)\<close> and \<open>sub in s\<close>.\<close>

fun startswith :: "string \<Rightarrow> string \<Rightarrow> bool" where
  "startswith [] s = True"
| "startswith (p # ps) [] = False"
| "startswith (p # ps) (c # cs) = (p = c \<and> startswith ps cs)"

fun contains :: "string \<Rightarrow> string \<Rightarrow> bool" where
  "contains sub [] = (sub = [])"
| "contains sub (c # cs) = (startswith sub (c # cs) \<or> contains sub cs)"

text \<open>\<open>s.replace(' ', '.')\<close>.\<close>

definition replace_space_dot :: "string \<Rightarrow> string" where
  "replace_space_dot s = map (\<lambda>c. if c = CHR '' '' then CHR ''.'' else c) s"

text \<open>\<open>sep.join(xs)\<close>.\<close>

fun join :: "string \<Rightarrow> string list \<Rightarrow> string" where
  "join sep [] = []"
| "join sep [x] = x"
| "join sep (x # y # ys) = x @ sep @ join sep (y # ys)"

section \<open>The two regular expressions of \<open>description_to_selector\<close>\<close>

definition squote :: char where
  "squote = CHR 0x27"

definition dquote :: char where
  "dquote = CHR 0x22"

definition is_quote :: "char \<Rightarrow> bool" where
  "is_quote c = (c = squote \<or> c = dquote)"

text \<open>
  The pattern \<open>kw\s['\"]([^'\"]+)['\"]\<close> tried at the start of \<open>s\<close>, for \<open>kw\<close> one
  of \<open>id\<close> and \<open>class\<close>: the keyword, one white space, a quote, a run of characters that
  are not quotes, a quote. The run is greedy and what follows it must be a quote, so the
  run is the longest one, it must not be empty and must not reach the end of the string;
  giving characters back cannot help, since the one given back is not a quote. The result
  is group 1.
\<close>

definition match_quoted_at :: "string \<Rightarrow> string \<Rightarrow> string option" where
  "match_quoted_at kw s =
     (if startswith kw s then
        (case drop (length kw) s of
           w # q # rest \<Rightarrow>
             if isspace w \<and> is_quote q then
               (let run = takeWhile (\<lambda>c. \<not> is_quote c) rest;
                    after = dropWhile (\<lambda>c. \<not> is_quote c) rest
                in if run \<noteq> [] \<and> after \<noteq> [] then Some run else None)
             else None
         | _ \<Rightarrow> None)
      else None)"

text \<open>\<open>re.search\<close>: the match at the leftmost position where the pattern matches.\<close>

fun search_quoted :: "string \<Rightarrow> string \<Rightarrow> string option" where
  "search_quoted kw [] = match_quoted_at kw []"
| "search_quoted kw (c # cs) =
     (case match_quoted_at kw (c # cs) of
        Some g \<Rightarrow> Some g
      | None \<Rightarrow> search_quoted kw cs)"

text \<open>
  \<open>re.match(r'^[a-zA-Z0-9]+$', s)\<close>: one or more ASCII letters and digits, up to the
  end of the string or up to a line feed that ends the string (\<open>$\<close> matches there too).
\<close>

definition is_alnum :: "char \<Rightarrow> bool" where
  "is_alnum c =
     (let n = code c in (97 \<le> n \<and> n \<le> 122) \<or> (65 \<le> n \<and> n \<le> 90) \<or> (48 \<le> n \<and> n \<le> 57))"

definition match_alnum :: "string \<Rightarrow> bool" where
  "match_alnum s =
     (let run = takeWhile is_alnum s; after = dropWhile is_alnum s
      in run \<noteq> [] \<and> (after = [] \<or> after = [CHR 0x0A]))"

section \<open>\<open>description_to_selector\<close>\<close>

text \<open>The five result types, which the source writes as strings.\<close>

datatype result_type = Text | Src | Href | Text_block | Table_data

definition keyword_map :: "(string \<times> string) list" where
  "keyword_map =
     [(''all links'', ''a''), (''all paragraphs'', ''p''), (''all headings'', ''h1, h2, h3''),
      (''all images'', ''img''), (''all list items'', ''li'')]"

text \<open>
  Lines 65 to 80: what the function does once \<open>result_type\<close> and \<open>query_key\<close> are set and
  no early return was taken. The selector \<open>None\<close> is Python's \<open>None\<close>.
\<close>

definition lookup_selector :: "string \<Rightarrow> result_type \<Rightarrow> string \<Rightarrow> string option \<times> result_type" where
  "lookup_selector description result_type query_key =
     (case map_of keyword_map query_key of
        Some sel \<Rightarrow> (Some sel, result_type)
      | None \<Rightarrow>
          (case search_quoted ''id'' description of
             Some g \<Rightarrow> (Some (''#'' @ g), result_type)
           | None \<Rightarrow>
               (case search_quoted ''class'' description of
                  Some g \<Rightarrow> (Some (''.'' @ replace_space_dot g), result_type)
                | None \<Rightarrow>
                    if \<not> contains '' '' description \<and> match_alnum description
                    then (Some description, Text)
                    else (None, result_type))))"

text \<open>Lines 45 to 63, then the rest.\<close>

definition description_to_selector :: "string \<Rightarrow> string option \<times> result_type" where
  "description_to_selector raw =
     (let description = strip (lower raw) in
      if contains ''table'' description then (Some ''table'', Table_data)
      else if contains ''image'' description then lookup_selector description Src ''all images''
      else if contains ''link'' description \<or> contains ''url'' description
        then lookup_selector description Href ''all links''
      else if list_ex (\<lambda>phrase. contains phrase description)
                [''entire data'', ''all data'', ''all content'']
        then (Some ''body'', Text_block)
      else if contains ''all paragraph'' description then (Some ''p'', Text_block)
      else lookup_selector description Text description)"

section \<open>The libraries\<close>

text \<open>
  BeautifulSoup, pandas and \<open>urllib.parse\<close> are libraries the script calls; they are
  no code of the repository, so the model takes them as a record of functions. \<open>'el\<close>
  is a parsed element (a bs4 \<open>Tag\<close>), \<open>'tbl\<close> a table (a pandas \<open>DataFrame\<close>). A call
  that can raise returns a sum, \<open>Inl\<close> with the exception's message.
  \<^item> \<open>find_tables html\<close>: the table parser that \<open>pandas.read_html\<close> runs over the
    document, giving the tables it finds in document order;
  \<^item> \<open>soup_select html sel\<close>: \<open>BeautifulSoup(html, 'html.parser').select(sel)\<close>, the
    matching elements in document order; it raises when \<open>sel\<close> is no valid selector;
  \<^item> \<open>get_attr el name\<close>: the attribute of an element, \<open>None\<close> when it has none;
  \<^item> \<open>text_strip el\<close>: \<open>el.get_text(strip=True)\<close>;
  \<^item> \<open>text_strip_sep el\<close>: \<open>el.get_text(strip=True, separator=' ')\<close>;
  \<^item> \<open>urljoin base ref\<close>: \<open>urllib.parse.urljoin\<close>, which raises on a malformed
    reference.
\<close>

record ('el, 'tbl) library =
  find_tables :: "string \<Rightarrow> string + 'tbl list"
  soup_select :: "string \<Rightarrow> string \<Rightarrow> string + 'el list"
  get_attr :: "'el \<Rightarrow> string \<Rightarrow> string option"
  text_strip :: "'el \<Rightarrow> string"
  text_strip_sep :: "'el \<Rightarrow> string"
  urljoin :: "string option \<Rightarrow> string \<Rightarrow> string + string"

text \<open>
  \<open>pandas.read_html\<close>. Its documentation states the contract: the function returns a
  list of tables or it fails, and it does not return an empty list; for a document
  in which the parser finds no table it raises \<open>ValueError\<close> with the message
  \<open>No tables found\<close>.
\<close>

definition read_html :: "('el, 'tbl) library \<Rightarrow> string \<Rightarrow> string + 'tbl list" where
  "read_html lib html =
     (case find_tables lib html of
        Inl e \<Rightarrow> Inl e
      | Inr tables \<Rightarrow> if tables = [] then Inl ''No tables found'' else Inr tables)"

text \<open>\<open>el.get(name, '')\<close>.\<close>

definition get_or_empty :: "('el, 'tbl) library \<Rightarrow> 'el \<Rightarrow> string \<Rightarrow> string" where
  "get_or_empty lib el name = (case get_attr lib el name of None \<Rightarrow> [] | Some v \<Rightarrow> v)"

section \<open>The session and the Extract Data handler\<close>

text \<open>
  \<open>st.session_state\<close>, with the seven keys of line 86, each \<open>None\<close> at first. The data
  frame \<open>results_df\<close> has the one column \<open>results\<close> and is the list of its rows.
\<close>

record 'tbl session =
  page_html :: "string option"
  url :: "string option"
  results_df :: "string list option"
  results_text :: "string option"
  selector :: "string option"
  table_list :: "'tbl list option"
  description :: "string option"

text \<open>
  What a click leaves on the page besides the session: nothing (\<open>Done\<close>), a
  \<open>st.warning\<close>, a \<open>st.error\<close>, or an exception that no \<open>try\<close> catches and that ends the
  script run. \<open>Hidden\<close>: the form is not rendered, since no page has been scraped.
\<close>

datatype outcome = Done | St_warning string | St_error string | Uncaught string | Hidden

text \<open>The test of line 160 on the value of \<open>src\<close>.\<close>

definition usable_src :: "string \<Rightarrow> bool" where
  "usable_src content = (content \<noteq> [] \<and> \<not> contains ''data:image/gif;base64'' content)"

text \<open>
  Lines 158 to 167, one turn of the loop over the elements: what it appends to
  \<open>data_list\<close>.
\<close>

definition appended :: "('el, 'tbl) library \<Rightarrow> string option \<Rightarrow> result_type \<Rightarrow> 'el \<Rightarrow> string + string list" where
  "appended lib base rt el =
     (if rt = Src then
        (let content = get_or_empty lib el ''src'' in
         if usable_src content
         then (case urljoin lib base content of Inl e \<Rightarrow> Inl e | Inr u \<Rightarrow> Inr [u])
         else Inr [])
      else if rt = Href then
        (let content = get_or_empty lib el ''href'' in
         if content \<noteq> []
         then (case urljoin lib base content of Inl e \<Rightarrow> Inl e | Inr u \<Rightarrow> Inr [u])
         else Inr [])
      else
        (let content = text_strip_sep lib el in
         if content \<noteq> [] then Inr [content] else Inr []))"

text \<open>Lines 156 to 167: the loop, from the \<open>data_list\<close> built so far.\<close>

fun collect :: "('el, 'tbl) library \<Rightarrow> string option \<Rightarrow> result_type \<Rightarrow> 'el list \<Rightarrow> string list \<Rightarrow> string + string list" where
  "collect lib base rt [] data_list = Inr data_list"
| "collect lib base rt (el # els) data_list =
     (case appended lib base rt el of
        Inl e \<Rightarrow> Inl e
      | Inr new \<Rightarrow> collect lib base rt els (data_list @ new))"

text \<open>Lines 153 and 154.\<close>

definition text_block :: "('el, 'tbl) library \<Rightarrow> 'el list \<Rightarrow> string" where
  "text_block lib elements =
     join [CHR 0x0A, CHR 0x0A] (filter (\<lambda>t. t \<noteq> []) (map (text_strip lib) elements))"

text \<open>
  Lines 145 to 168: the extraction, for a selector that is not empty. \<open>html\<close> is
  \<open>st.session_state.page_html\<close>.
\<close>

definition extract_data :: "('el, 'tbl) library \<Rightarrow> string \<Rightarrow> 'tbl session \<Rightarrow> string \<Rightarrow> result_type \<Rightarrow> 'tbl session \<times> outcome" where
  "extract_data lib html s sel rt =
     (let s1 = s\<lparr>selector := Some sel\<rparr> in
      if rt = Table_data then
        (case read_html lib html of
           Inl e \<Rightarrow> (s1, St_error (''Could not parse tables. Error: '' @ e))
         | Inr tables \<Rightarrow> (s1\<lparr>table_list := Some tables\<rparr>, Done))
      else
        (case soup_select lib html sel of
           Inl e \<Rightarrow> (s1, Uncaught e)
         | Inr elements \<Rightarrow>
             if rt = Text_block then (s1\<lparr>results_text := Some (text_block lib elements)\<rparr>, Done)
             else
               (case collect lib (url s1) rt elements [] of
                  Inl e \<Rightarrow> (s1, Uncaught e)
                | Inr data_list \<Rightarrow> (s1\<lparr>results_df := Some data_list\<rparr>, Done))))"

text \<open>
  Lines 107 to 172, for the run of the script in which the user clicked Extract Data with
  \<open>typed\<close> in the text input. The form exists only when \<open>page_html\<close> is a string that is
  not empty; line 132 stores the input; line 142 clears the three results before line 144
  looks at the selector, which counts when it is neither \<open>None\<close> nor empty.
\<close>

definition extract_click :: "('el, 'tbl) library \<Rightarrow> string \<Rightarrow> 'tbl session \<Rightarrow> 'tbl session \<times> outcome" where
  "extract_click lib typed s =
     (case page_html s of
        None \<Rightarrow> (s, Hidden)
      | Some html \<Rightarrow>
          if html = [] then (s, Hidden)
          else
            (let s0 = s\<lparr>description := Some typed\<rparr> in
             if typed = [] then (s0, St_warning ''Please describe what you want to extract.'')
             else
               (let found = description_to_selector typed;
                    s1 = s0\<lparr>results_df := None, results_text := None, table_list := None\<rparr>
                in case fst found of
                     None \<Rightarrow> (s1, St_error ''Could not understand your description.'')
                   | Some sel \<Rightarrow>
                       if sel = [] then (s1, St_error ''Could not understand your description.'')
                       else extract_data lib html s1 sel (snd found))))"

section \<open>The scroll loop of \<open>get_page_source\<close>\<close>

text \<open>
  Lines 30 to 36. \<open>height k\<close> is what the \<open>k\<close>-th reading of
  \<open>document.body.scrollHeight\<close> returns: reading 0 is line 30, reading \<open>k\<close> the one that
  follows the \<open>k\<close>-th scroll and wait. \<open>scroll_from\<close> is the loop with \<open>n\<close> turns of
  \<open>range(5)\<close> left, after \<open>done\<close> scrolls, and returns how many scrolls the loop made in
  all. (A reading that raises ends the function through line 41.)
\<close>

fun scroll_from :: "(nat \<Rightarrow> int) \<Rightarrow> nat \<Rightarrow> nat \<Rightarrow> int \<Rightarrow> nat" where
  "scroll_from height 0 done last_height = done"
| "scroll_from height (Suc n) done last_height =
     (let new_height = height (Suc done) in
      if new_height = last_height then Suc done
      else scroll_from height n (Suc done) new_height)"

definition scroll_loop :: "(nat \<Rightarrow> int) \<Rightarrow> nat" where
  "scroll_loop height = scroll_from height 5 0 (height 0)"

section \<open>Running the model\<close>

text \<open>
  Lines 100 to 103: the session after Scrape Website has fetched \<open>html\<close> from \<open>u\<close>.
\<close>

definition scraped :: "string \<Rightarrow> string \<Rightarrow> 'tbl session" where
  "scraped u html =
     \<lparr>page_html = Some html, url = Some u, results_df = None, results_text = None,
      selector = None, table_list = None, description = None\<rparr>"

text \<open>
  A stand-in for the libraries, to run the handler on one document: the selector
  matches the elements \<open>els\<close>, each given by its attributes and its text, and the table
  parser finds \<open>tables\<close>, each a grid of cells. Its \<open>urljoin\<close> is right for a base that
  ends in a slash at the root of a site and a reference that is a path; a reference with
  a scheme of its own (a colon before the first slash) comes back as it is, unless it
  opens a bracket and does not close it: on that one \<open>urljoin\<close> raises \<open>ValueError\<close>.
\<close>

type_synonym stub_el = "(string \<times> string) list \<times> string"

definition stub_urljoin :: "string option \<Rightarrow> string \<Rightarrow> string + string" where
  "stub_urljoin base ref =
     (case base of
        None \<Rightarrow> Inr ref
      | Some b \<Rightarrow>
          if contains '':'' (takeWhile (\<lambda>c. c \<noteq> CHR ''/'') ref) then
            (if contains ''['' ref \<and> \<not> contains '']'' ref then Inl ''Invalid IPv6 URL''
             else Inr ref)
          else Inr (b @ dropWhile (\<lambda>c. c = CHR ''/'') ref))"

definition stub_lib :: "stub_el list \<Rightarrow> string list list list \<Rightarrow> (stub_el, string list list) library" where
  "stub_lib els tables =
     \<lparr>find_tables = (\<lambda>html. Inr tables),
      soup_select = (\<lambda>html sel. Inr els),
      get_attr = (\<lambda>el name. map_of (fst el) name),
      text_strip = snd,
      text_strip_sep = snd,
      urljoin = stub_urljoin\<rparr>"

text \<open>The document of the end-to-end scenario and its two anchors.\<close>

definition example_html :: string where
  "example_html =
     ''<body><a href='' @ [dquote] @ ''/a'' @ [dquote] @ ''>A</a><a href='' @ [dquote] @ ''x'' @
     [dquote] @ ''>B</a></body>''"

definition example_anchors :: "stub_el list" where
  "example_anchors = [([(''href'', ''/a'')], ''A''), ([(''href'', ''x'')], ''B'')]"


definition example_paragraphs :: "stub_el list" where
  "example_paragraphs = [([], []), ([], ''one''), ([], []), ([], []), ([], ''two''), ([], [])]"







text \<open>A page whose height shrinks by 10 with every reading, from 100.\<close>

definition shrinking_page :: "nat \<Rightarrow> int" where
  "shrinking_page k = 100 - 10 * int k"

text \<open>A page that grows twice and then stays at 180.\<close>

definition settling_page :: "nat \<Rightarrow> int" where
  "settling_page k = (if k < 2 then 100 * int k else 180)"

section \<open>Facts about the string operations\<close>

lemma startswith_iff: "startswith p s \<longleftrightarrow> (\<exists>ss. s = p @ ss)"
  by (induction p s rule: startswith.induct) auto

lemma contains_iff: "contains sub s \<longleftrightarrow> (\<exists>ps ss. s = ps @ sub @ ss)"
proof (induction s)
  case Nil
  then show ?case by auto
next
  case (Cons c cs)
  show ?case
  proof
    assume "contains sub (c # cs)"
    then consider "startswith sub (c # cs)" | "contains sub cs" by auto
    then show "\<exists>ps ss. c # cs = ps @ sub @ ss"
    proof cases
      case 1
      then obtain ss where "c # cs = sub @ ss" by (auto simp: startswith_iff)
      then have "c # cs = [] @ sub @ ss" by simp
      then show ?thesis by blast
    next
      case 2
      then obtain ps ss where "cs = ps @ sub @ ss" using Cons.IH by auto
      then have "c # cs = (c # ps) @ sub @ ss" by simp
      then show ?thesis by blast
    qed
  next
    assume "\<exists>ps ss. c # cs = ps @ sub @ ss"
    then obtain ps ss where eq: "c # cs = ps @ sub @ ss" by auto
    show "contains sub (c # cs)"
    proof (cases ps)
      case Nil
      then have "startswith sub (c # cs)" using eq by (auto simp: startswith_iff)
      then show ?thesis by simp
    next
      case (Cons p ps')
      then have "cs = ps' @ sub @ ss" using eq by simp
      then have "contains sub cs" using Cons.IH by auto
      then show ?thesis by simp
    qed
  qed
qed

lemma isspace_lower_char: "isspace c \<Longrightarrow> lower_char c = c"
  by (auto simp: isspace_def lower_char_def Let_def)

lemma lower_spaces: "list_all isspace s \<Longrightarrow> lower s = s"
  by (induction s) (auto simp: lower_def isspace_lower_char)

lemma strip_spaces: "list_all isspace s \<Longrightarrow> strip s = []"
proof -
  assume "list_all isspace s"
  then have e: "dropWhile isspace s = []" by (simp add: list_all_iff)
  show ?thesis unfolding strip_def e by simp
qed

section \<open>Facts about the keyword table and the patterns\<close>

lemma lookup_selector_empty: "lookup_selector [] rt [] = (None, rt)"
  by (simp add: lookup_selector_def keyword_map_def match_quoted_at_def match_alnum_def)

lemma lookup_images: "lookup_selector d rt ''all images'' = (Some ''img'', rt)"
  by (simp add: lookup_selector_def keyword_map_def)

lemma lookup_links: "lookup_selector d rt ''all links'' = (Some ''a'', rt)"
  by (simp add: lookup_selector_def keyword_map_def)

lemma lookup_selector_text: "snd (lookup_selector d Text k) = Text"
  by (simp add: lookup_selector_def split: option.splits)

section \<open>The table rule\<close>

text \<open>
  C1. Whenever the description, lowercased and stripped, has \<open>table\<close> somewhere in it
  (whatever stands before and after), \<open>description_to_selector\<close> returns the selector
  \<open>table\<close> with the result type \<open>table_data\<close>: no other content of the description and
  no later rule changes that.
\<close>

theorem table_rule_first:
  "strip (lower raw) = before @ ''table'' @ after \<Longrightarrow>
   description_to_selector raw = (Some ''table'', Table_data)"
proof -
  assume "strip (lower raw) = before @ ''table'' @ after"
  then have "contains ''table'' (strip (lower raw))"
    unfolding contains_iff by blast
  then show ?thesis
    by (simp add: description_to_selector_def)
qed

theorem table_rule_first_witness:
  "strip (lower ''Show me the data TABLE, all links'') =
     ''show me the data '' @ ''table'' @ '', all links'' \<and>
   description_to_selector ''Show me the data TABLE, all links'' = (Some ''table'', Table_data)"
proof -
  have h: "strip (lower ''Show me the data TABLE, all links'') =
      ''show me the data '' @ ''table'' @ '', all links''"
    by code_simp
  show ?thesis using h table_rule_first [OF h] by blast
qed

section \<open>Result type and selector\<close>

text \<open>
  C9. The result type \<open>src\<close> comes only with the selector \<open>img\<close> and the result type
  \<open>href\<close> only with the selector \<open>a\<close>. A description with \<open>image\<close>, \<open>link\<close> or \<open>url\<close> in it
  and without \<open>table\<close> always ends at the keyword table, with exactly these two results, so
  the \<open>id\<close> pattern, the \<open>class\<close> pattern and the bare tag name are never reached for it:
  whatever they return has the result type \<open>text\<close>.
\<close>

theorem shape_fixes_selector:
  "(snd (description_to_selector raw) = Src \<longrightarrow> fst (description_to_selector raw) = Some ''img'') \<and>
   (snd (description_to_selector raw) = Href \<longrightarrow> fst (description_to_selector raw) = Some ''a'') \<and>
   (\<not> contains ''table'' (strip (lower raw)) \<and> contains ''image'' (strip (lower raw)) \<longrightarrow>
      description_to_selector raw = (Some ''img'', Src)) \<and>
   (\<not> contains ''table'' (strip (lower raw)) \<and> \<not> contains ''image'' (strip (lower raw)) \<and>
    (contains ''link'' (strip (lower raw)) \<or> contains ''url'' (strip (lower raw))) \<longrightarrow>
      description_to_selector raw = (Some ''a'', Href))"
  using lookup_selector_text [of "strip (lower raw)" "strip (lower raw)"]
  by (auto simp: description_to_selector_def Let_def lookup_images lookup_links)

theorem shape_fixes_selector_witness:
  "description_to_selector (''the IMAGE with id '' @ [squote] @ ''hero'' @ [squote]) = (Some ''img'', Src) \<and>
   description_to_selector (''every URL of class '' @ [dquote] @ ''nav'' @ [dquote]) = (Some ''a'', Href)"
proof -
  let ?i = "''the IMAGE with id '' @ [squote] @ ''hero'' @ [squote]"
  let ?u = "''every URL of class '' @ [dquote] @ ''nav'' @ [dquote]"
  have hi: "\<not> contains ''table'' (strip (lower ?i)) \<and> contains ''image'' (strip (lower ?i))"
    by code_simp
  have hu: "\<not> contains ''table'' (strip (lower ?u)) \<and> \<not> contains ''image'' (strip (lower ?u)) \<and>
      (contains ''link'' (strip (lower ?u)) \<or> contains ''url'' (strip (lower ?u)))"
    by code_simp
  from hi hu shape_fixes_selector [of ?i] shape_fixes_selector [of ?u]
  show ?thesis by blast
qed

section \<open>Totality\<close>

text \<open>
  C10. \<open>description_to_selector\<close> returns a pair of a selector and a result type for
  every string: nothing in it can raise. For the empty string and for a string of white
  space only, the pair is \<open>None\<close> and \<open>text\<close>: the description is not understood.
\<close>

theorem interpret_total:
  "(\<exists>sel rt. description_to_selector raw = (sel, rt)) \<and>
   (list_all isspace raw \<longrightarrow> description_to_selector raw = (None, Text))"
proof
  show "\<exists>sel rt. description_to_selector raw = (sel, rt)"
    by (cases "description_to_selector raw") blast
  show "list_all isspace raw \<longrightarrow> description_to_selector raw = (None, Text)"
    by (simp add: description_to_selector_def lower_spaces strip_spaces lookup_selector_empty)
qed

theorem interpret_total_witness:
  "list_all isspace [CHR '' '', CHR 0x09, CHR 0x0A, CHR 0xA0] \<and>
   description_to_selector [CHR '' '', CHR 0x09, CHR 0x0A, CHR 0xA0] = (None, Text) \<and>
   description_to_selector [] = (None, Text)"
proof -
  have h: "list_all isspace [CHR '' '', CHR 0x09, CHR 0x0A, CHR 0xA0]" by code_simp
  have e: "list_all isspace []" by simp
  from h e interpret_total [of "[CHR '' '', CHR 0x09, CHR 0x0A, CHR 0xA0]"] interpret_total [of "[]"]
  show ?thesis by blast
qed

section \<open>An unrecognized description\<close>

text \<open>
  C2, as amended. When a description that is not empty gets no selector, nothing is
  extracted and \<open>Could not understand your description.\<close> is reported, but line 142 has
  already run: the three results \<open>results_df\<close>, \<open>results_text\<close> and \<open>table_list\<close> are
  \<open>None\<close> afterwards, whatever they held. The stored selector, the page and its URL stay
  as they were, and no library is called.
\<close>

theorem unrecognized_clears_results:
  assumes "page_html s = Some html" and "html \<noteq> []" and "typed \<noteq> []"
    and "fst (description_to_selector typed) = None"
  shows "extract_click lib typed s =
    (s\<lparr>description := Some typed, results_df := None, results_text := None, table_list := None\<rparr>,
     St_error ''Could not understand your description.'')"
  using assms by (simp add: extract_click_def Let_def)

theorem unrecognized_clears_results_witness:
  "extract_click (stub_lib example_anchors []) ''???''
     (fst (extract_click (stub_lib example_anchors []) ''all links''
        (scraped ''https://ex.com/'' example_html))) =
   (\<lparr>page_html = Some example_html, url = Some ''https://ex.com/'', results_df = None,
     results_text = None, selector = Some ''a'', table_list = None, description = Some ''???''\<rparr>,
    St_error ''Could not understand your description.'')"
proof -
  let ?s = "fst (extract_click (stub_lib example_anchors []) ''all links''
        (scraped ''https://ex.com/'' example_html))"
  have s: "?s = \<lparr>page_html = Some example_html, url = Some ''https://ex.com/'',
      results_df = Some [''https://ex.com/a'', ''https://ex.com/x''],
      results_text = None, selector = Some ''a'', table_list = None,
      description = Some ''all links''\<rparr>"
    by code_simp
  have h1: "page_html ?s = Some example_html" by (simp add: s)
  have h2: "example_html \<noteq> []" by code_simp
  have h3: "''???'' \<noteq> []" by simp
  have h4: "fst (description_to_selector ''???'') = None" by code_simp
  show ?thesis
    using unrecognized_clears_results [OF h1 h2 h3 h4, of "stub_lib example_anchors []"]
    by (simp add: s)
qed

text \<open>
  C2 as the specification states it fails. After \<open>all links\<close> on the example page the
  session holds the two URLs; the description \<open>???\<close> gets no selector, and after that
  click \<open>results_df\<close> is \<open>None\<close>: the earlier results are gone.
\<close>

theorem unrecognized_keeps_results_counterexample:
  "fst (description_to_selector ''???'') = None \<and>
   results_df (fst (extract_click (stub_lib example_anchors []) ''all links''
       (scraped ''https://ex.com/'' example_html))) =
     Some [''https://ex.com/a'', ''https://ex.com/x''] \<and>
   results_df (fst (extract_click (stub_lib example_anchors []) ''???''
       (fst (extract_click (stub_lib example_anchors []) ''all links''
          (scraped ''https://ex.com/'' example_html))))) = None"
  by code_simp

section \<open>Tables\<close>





section \<open>Image sources\<close>








section \<open>All links, end to end\<close>

text \<open>
  C5. The page is the example document, fetched from \<open>https://ex.com/\<close>. Given what the
  libraries do on it (the selector \<open>a\<close> matches its two anchors in order, their
  \<open>href\<close> values are \<open>/a\<close> and \<open>x\<close>, and \<open>urljoin\<close> resolves these to
  \<open>https://ex.com/a\<close> and \<open>https://ex.com/x\<close>), the description \<open>all links\<close> gives the
  selector \<open>a\<close> with the result type \<open>href\<close>, and the click stores exactly these two
  URLs, in this order.
\<close>

theorem all_links_end_to_end:
  fixes lib :: "('el, 'tbl) library" and s :: "'tbl session"
  assumes "page_html s = Some example_html" and "url s = Some ''https://ex.com/''"
    and "soup_select lib example_html ''a'' = Inr [first, second]"
    and "get_attr lib first ''href'' = Some ''/a''"
    and "get_attr lib second ''href'' = Some ''x''"
    and "urljoin lib (Some ''https://ex.com/'') ''/a'' = Inr ''https://ex.com/a''"
    and "urljoin lib (Some ''https://ex.com/'') ''x'' = Inr ''https://ex.com/x''"
  shows "description_to_selector ''all links'' = (Some ''a'', Href) \<and>
         results_df (fst (extract_click lib ''all links'' s)) =
           Some [''https://ex.com/a'', ''https://ex.com/x''] \<and>
         snd (extract_click lib ''all links'' s) = Done"
proof -
  have d: "description_to_selector ''all links'' = (Some ''a'', Href)" by code_simp
  have h: "example_html \<noteq> []" by code_simp
  have c: "collect lib (Some ''https://ex.com/'') Href [first, second] [] =
      Inr [''https://ex.com/a'', ''https://ex.com/x'']"
    using assms(4-7) by (simp add: appended_def get_or_empty_def)
  have e: "extract_data lib example_html t ''a'' Href =
      (t\<lparr>selector := Some ''a'',
         results_df := Some [''https://ex.com/a'', ''https://ex.com/x'']\<rparr>, Done)"
    if "url t = Some ''https://ex.com/''" for t :: "'tbl session"
    using that assms(3) c by (simp add: extract_data_def Let_def del: collect.simps)
  have "extract_click lib ''all links'' s =
      extract_data lib example_html
        (s\<lparr>description := Some ''all links'', results_df := None, results_text := None,
           table_list := None\<rparr>) ''a'' Href"
    using assms(1) d h by (simp add: extract_click_def Let_def)
  then show ?thesis using d e assms(2) by simp
qed

theorem all_links_end_to_end_witness:
  "description_to_selector ''all links'' = (Some ''a'', Href) \<and>
   results_df (fst (extract_click (stub_lib example_anchors []) ''all links''
      (scraped ''https://ex.com/'' example_html))) =
     Some [''https://ex.com/a'', ''https://ex.com/x''] \<and>
   snd (extract_click (stub_lib example_anchors []) ''all links''
      (scraped ''https://ex.com/'' example_html)) = Done"
proof -
  let ?lib = "stub_lib example_anchors []"
  let ?s = "scraped ''https://ex.com/'' example_html :: string list list session"
  have h1: "page_html ?s = Some example_html" by (simp add: scraped_def)
  have h2: "url ?s = Some ''https://ex.com/''" by (simp add: scraped_def)
  have h3: "soup_select ?lib example_html ''a'' =
      Inr [([(''href'', ''/a'')], ''A''), ([(''href'', ''x'')], ''B'')]"
    by (simp add: stub_lib_def example_anchors_def)
  have h4: "get_attr ?lib ([(''href'', ''/a'')], ''A'') ''href'' = Some ''/a''"
    by (simp add: stub_lib_def)
  have h5: "get_attr ?lib ([(''href'', ''x'')], ''B'') ''href'' = Some ''x''"
    by (simp add: stub_lib_def)
  have h6: "urljoin ?lib (Some ''https://ex.com/'') ''/a'' = Inr ''https://ex.com/a''"
    by (simp add: stub_lib_def stub_urljoin_def)
  have h7: "urljoin ?lib (Some ''https://ex.com/'') ''x'' = Inr ''https://ex.com/x''"
    by (simp add: stub_lib_def stub_urljoin_def)
  show ?thesis by (rule all_links_end_to_end [OF h1 h2 h3 h4 h5 h6 h7])
qed

section \<open>Text blocks\<close>

lemma length_join:
  "length (join sep xs) = sum_list (map length xs) + length sep * (length xs - 1)"
  by (induction sep xs rule: join.induct) auto

lemma populated_texts:
  "filter (\<lambda>t. t \<noteq> []) (map f els) = map f (filter (\<lambda>el. f el \<noteq> []) els)"
  by (induction els) auto

lemma text_block_populated:
  "text_block lib els = text_block lib (filter (\<lambda>el. text_strip lib el \<noteq> []) els)"
  by (simp add: text_block_def populated_texts)

text \<open>
  C6. For the result type \<open>text_block\<close>, with \<open>els\<close> the selected elements: the stored
  text is the join, with two line feeds, of the texts of the elements whose text is
  not empty, in order. No joined segment is empty; the elements with empty text leave no
  trace, the text is the same as if they had not been selected; and the separators add
  two characters for each populated element after the first, so there is one exactly
  between two populated segments that follow each other and nowhere else.
\<close>

theorem text_block_segments:
  assumes "soup_select lib html sel = Inr els"
  shows "extract_data lib html s sel Text_block =
           (s\<lparr>selector := Some sel, results_text := Some (text_block lib els)\<rparr>, Done) \<and>
         text_block lib els =
           join [CHR 0x0A, CHR 0x0A]
             (map (text_strip lib) (filter (\<lambda>el. text_strip lib el \<noteq> []) els)) \<and>
         [] \<notin> set (map (text_strip lib) (filter (\<lambda>el. text_strip lib el \<noteq> []) els)) \<and>
         text_block lib els = text_block lib (filter (\<lambda>el. text_strip lib el \<noteq> []) els) \<and>
         length (text_block lib els) =
           sum_list (map (\<lambda>el. length (text_strip lib el)) els) +
           2 * (length (filter (\<lambda>el. text_strip lib el \<noteq> []) els) - 1)"
proof -
  have a: "extract_data lib html s sel Text_block =
           (s\<lparr>selector := Some sel, results_text := Some (text_block lib els)\<rparr>, Done)"
    using assms by (simp add: extract_data_def Let_def)
  have b: "text_block lib els =
      join [CHR 0x0A, CHR 0x0A]
        (map (text_strip lib) (filter (\<lambda>el. text_strip lib el \<noteq> []) els))"
    by (simp add: text_block_def populated_texts)
  have c: "[] \<notin> set (map (text_strip lib) (filter (\<lambda>el. text_strip lib el \<noteq> []) els))"
    by auto
  have s: "sum_list (map (\<lambda>el. length (text_strip lib el))
        (filter (\<lambda>el. text_strip lib el \<noteq> []) els)) =
      sum_list (map (\<lambda>el. length (text_strip lib el)) els)"
    by (induction els) auto
  have d: "length (text_block lib els) =
           sum_list (map (\<lambda>el. length (text_strip lib el)) els) +
           2 * (length (filter (\<lambda>el. text_strip lib el \<noteq> []) els) - 1)"
    unfolding b length_join using s by (simp add: o_def)
  from a b c d text_block_populated [of lib els] show ?thesis by blast
qed

theorem text_block_segments_witness:
  "extract_data (stub_lib example_paragraphs []) ''<p>'' (scraped ''https://ex.com/'' ''<p>'') ''p''
     Text_block =
     ((scraped ''https://ex.com/'' ''<p>'')\<lparr>selector := Some ''p'',
        results_text := Some (''one'' @ [CHR 0x0A, CHR 0x0A] @ ''two'')\<rparr>, Done)"
proof -
  let ?lib = "stub_lib example_paragraphs []"
  have h: "soup_select ?lib ''<p>'' ''p'' = Inr example_paragraphs" by (simp add: stub_lib_def)
  have t: "text_block ?lib example_paragraphs = ''one'' @ [CHR 0x0A, CHR 0x0A] @ ''two''"
    by code_simp
  show ?thesis using text_block_segments [OF h] unfolding t by blast
qed

section \<open>Repeating an extraction\<close>

lemma extract_click_run:
  assumes "page_html u = Some html" and "html \<noteq> []" and "typed \<noteq> []"
    and "fst (description_to_selector typed) = Some sel" and "sel \<noteq> []"
  shows "extract_click lib typed u =
    extract_data lib html
      (u\<lparr>description := Some typed, results_df := None, results_text := None, table_list := None\<rparr>)
      sel (snd (description_to_selector typed))"
  using assms by (simp add: extract_click_def Let_def)

lemma page_html_extract_data:
  "page_html (fst (extract_data lib html s sel rt)) = page_html s"
  by (simp add: extract_data_def Let_def split: sum.splits)

lemma extract_data_again:
  "extract_data lib html
     ((fst (extract_data lib html s sel rt))\<lparr>description := d, results_df := None,
        results_text := None, table_list := None\<rparr>) sel rt =
   extract_data lib html (s\<lparr>description := d, results_df := None,
        results_text := None, table_list := None\<rparr>) sel rt"
  by (simp add: extract_data_def Let_def split: sum.splits)

text \<open>
  C7. A second click with the same description on the session that the first click
  left gives the same session and the same outcome again. And when the click runs the
  pipeline (a page has been fetched and the description is not empty), the three results
  and the outcome depend on the page, its URL and the description only: two sessions
  with the same page and URL get the same results, whatever results, selector or
  description they held before.
\<close>

theorem extract_click_deterministic:
  "extract_click lib typed (fst (extract_click lib typed s)) = extract_click lib typed s \<and>
   (page_html s = Some html \<and> page_html t = Some html \<and> html \<noteq> [] \<and> typed \<noteq> [] \<and>
    url s = url t \<longrightarrow>
      results_df (fst (extract_click lib typed s)) = results_df (fst (extract_click lib typed t)) \<and>
      results_text (fst (extract_click lib typed s)) = results_text (fst (extract_click lib typed t)) \<and>
      table_list (fst (extract_click lib typed s)) = table_list (fst (extract_click lib typed t)) \<and>
      snd (extract_click lib typed s) = snd (extract_click lib typed t))"
proof
  show "extract_click lib typed (fst (extract_click lib typed s)) = extract_click lib typed s"
  proof (cases "page_html s")
    case None
    then show ?thesis by (simp add: extract_click_def)
  next
    case (Some html)
    show ?thesis
    proof (cases "html = [] \<or> typed = []")
      case True
      then show ?thesis using Some by (auto simp: extract_click_def Let_def)
    next
      case False
      let ?s1 = "s\<lparr>description := Some typed, results_df := None, results_text := None,
        table_list := None\<rparr>"
      show ?thesis
      proof (cases "fst (description_to_selector typed) = None \<or>
          fst (description_to_selector typed) = Some []")
        case True
        then show ?thesis using Some False by (auto simp: extract_click_def Let_def)
      next
        case other: False
        then obtain sel where sel: "fst (description_to_selector typed) = Some sel" "sel \<noteq> []"
          by (cases "fst (description_to_selector typed)") auto
        have first: "extract_click lib typed s =
            extract_data lib html ?s1 sel (snd (description_to_selector typed))"
          using Some False sel by (simp add: extract_click_run)
        have "page_html (fst (extract_click lib typed s)) = Some html"
          unfolding first using Some by (simp add: page_html_extract_data)
        then have "extract_click lib typed (fst (extract_click lib typed s)) =
            extract_data lib html
              ((fst (extract_click lib typed s))
                 \<lparr>description := Some typed, results_df := None, results_text := None,
                    table_list := None\<rparr>) sel (snd (description_to_selector typed))"
          using False sel by (simp add: extract_click_run)
        also have "\<dots> = extract_data lib html
              ((fst (extract_data lib html ?s1 sel (snd (description_to_selector typed))))
                 \<lparr>description := Some typed, results_df := None, results_text := None,
                    table_list := None\<rparr>) sel (snd (description_to_selector typed))"
          by (simp only: first)
        also have "\<dots> = extract_data lib html ?s1 sel (snd (description_to_selector typed))"
          by (simp add: extract_data_again)
        finally show ?thesis using first by simp
      qed
    qed
  qed
  show "page_html s = Some html \<and> page_html t = Some html \<and> html \<noteq> [] \<and> typed \<noteq> [] \<and>
    url s = url t \<longrightarrow>
      results_df (fst (extract_click lib typed s)) = results_df (fst (extract_click lib typed t)) \<and>
      results_text (fst (extract_click lib typed s)) = results_text (fst (extract_click lib typed t)) \<and>
      table_list (fst (extract_click lib typed s)) = table_list (fst (extract_click lib typed t)) \<and>
      snd (extract_click lib typed s) = snd (extract_click lib typed t)"
    by (auto simp: extract_click_def extract_data_def Let_def split: option.splits sum.splits)
qed

theorem extract_click_deterministic_witness:
  "results_df (fst (extract_click (stub_lib example_anchors []) ''all links''
      (fst (extract_click (stub_lib example_anchors []) ''entire data''
         (scraped ''https://ex.com/'' example_html))))) =
   results_df (fst (extract_click (stub_lib example_anchors []) ''all links''
      (scraped ''https://ex.com/'' example_html))) \<and>
   results_df (fst (extract_click (stub_lib example_anchors []) ''all links''
      (scraped ''https://ex.com/'' example_html))) =
     Some [''https://ex.com/a'', ''https://ex.com/x'']"
proof -
  let ?lib = "stub_lib example_anchors []"
  let ?t = "scraped ''https://ex.com/'' example_html :: string list list session"
  let ?s = "fst (extract_click ?lib ''entire data'' ?t)"
  have h: "page_html ?s = Some example_html \<and> page_html ?t = Some example_html \<and>
      example_html \<noteq> [] \<and> ''all links'' \<noteq> [] \<and> url ?s = url ?t"
    by code_simp
  have v: "results_df (fst (extract_click ?lib ''all links'' ?t)) =
      Some [''https://ex.com/a'', ''https://ex.com/x'']"
    by code_simp
  from h v extract_click_deterministic [of ?lib "''all links''" ?s example_html ?t]
  show ?thesis by blast
qed

section \<open>The scroll loop\<close>

lemma scroll_from_bounds:
  "done \<le> scroll_from h n done lh \<and> scroll_from h n done lh \<le> done + n"
  by (induction h n "done" lh rule: scroll_from.induct) (auto simp: Let_def)

lemma scroll_from_positive: "0 < n \<Longrightarrow> done < scroll_from h n done lh"
proof (cases n)
  case 0
  assume "0 < n"
  with 0 show ?thesis by simp
next
  case (Suc m)
  have "Suc done \<le> scroll_from h m (Suc done) (h (Suc done))"
    using scroll_from_bounds [of "Suc done" h m "h (Suc done)"] by simp
  then show ?thesis using Suc by (simp add: Let_def)
qed

lemma scroll_from_changes:
  "done < k \<Longrightarrow> k < scroll_from h n done (h done) \<Longrightarrow> h k \<noteq> h (k - 1)"
proof (induction n arbitrary: "done")
  case 0
  then show ?case by simp
next
  case (Suc n)
  show ?case
  proof (cases "h (Suc done) = h done")
    case True
    then show ?thesis using Suc.prems by (simp add: Let_def)
  next
    case False
    then have run: "scroll_from h (Suc n) done (h done) = scroll_from h n (Suc done) (h (Suc done))"
      by (simp add: Let_def)
    show ?thesis
    proof (cases "k = Suc done")
      case True
      then show ?thesis using False by simp
    next
      case other: False
      then have "Suc done < k" using Suc.prems(1) by simp
      then show ?thesis using Suc.IH [of "Suc done"] Suc.prems(2) run by simp
    qed
  qed
qed

lemma scroll_from_early:
  "scroll_from h n done (h done) < done + n \<Longrightarrow>
   h (scroll_from h n done (h done)) = h (scroll_from h n done (h done) - 1)"
proof (induction n arbitrary: "done")
  case 0
  then show ?case by simp
next
  case (Suc n)
  show ?case
  proof (cases "h (Suc done) = h done")
    case True
    then show ?thesis by (simp add: Let_def)
  next
    case False
    then have run: "scroll_from h (Suc n) done (h done) = scroll_from h n (Suc done) (h (Suc done))"
      by (simp add: Let_def)
    then show ?thesis using Suc.IH [of "Suc done"] Suc.prems by simp
  qed
qed

text \<open>
  C8, as amended. For every sequence of readings the loop ends, after at least one and
  at most five scrolls. It stops at the first scroll after which the height reads the
  same as before it: every earlier scroll changed the height, and when the loop ends
  before the fifth scroll, the last two readings are equal. Only an equal reading
  stops it; a height that shrinks does not.
\<close>

theorem scroll_loop_stops:
  "1 \<le> scroll_loop height \<and> scroll_loop height \<le> 5 \<and>
   (\<forall>k. 1 \<le> k \<and> k < scroll_loop height \<longrightarrow> height k \<noteq> height (k - 1)) \<and>
   (scroll_loop height < 5 \<longrightarrow> height (scroll_loop height) = height (scroll_loop height - 1))"
proof -
  have a: "1 \<le> scroll_loop height"
    using scroll_from_positive [of 5 0 height "height 0"] by (simp add: scroll_loop_def)
  have b: "scroll_loop height \<le> 5"
    using scroll_from_bounds [of 0 height 5 "height 0"] by (simp add: scroll_loop_def)
  have c: "\<forall>k. 1 \<le> k \<and> k < scroll_loop height \<longrightarrow> height k \<noteq> height (k - 1)"
    using scroll_from_changes [of 0 _ height 5] by (simp add: scroll_loop_def)
  have d: "scroll_loop height < 5 \<longrightarrow> height (scroll_loop height) = height (scroll_loop height - 1)"
    using scroll_from_early [of height 5 0] by (simp add: scroll_loop_def)
  from a b c d show ?thesis by blast
qed

theorem scroll_loop_stops_witness:
  "scroll_loop settling_page = 3 \<and> settling_page 3 = settling_page 2 \<and>
   settling_page 1 \<noteq> settling_page 0 \<and> settling_page 2 \<noteq> settling_page 1"
proof -
  have v: "scroll_loop settling_page = 3" by code_simp
  then have "scroll_loop settling_page < 5" by simp
  then have e: "settling_page (scroll_loop settling_page) = settling_page (scroll_loop settling_page - 1)"
    using scroll_loop_stops [of settling_page] by blast
  have "1 \<le> (1::nat) \<and> 1 < scroll_loop settling_page" using v by simp
  then have c1: "settling_page 1 \<noteq> settling_page (1 - 1)"
    using scroll_loop_stops [of settling_page] by blast
  have "1 \<le> (2::nat) \<and> 2 < scroll_loop settling_page" using v by simp
  then have c2: "settling_page 2 \<noteq> settling_page (2 - 1)"
    using scroll_loop_stops [of settling_page] by blast
  from v e c1 c2 show ?thesis by simp
qed

text \<open>
  C8 as the specification states it fails. On the shrinking page the first scroll
  already finds a height that did not increase (90 after 100), and the loop still makes
  all five scrolls.
\<close>

theorem stops_when_not_increasing_counterexample:
  "\<not> shrinking_page 0 < shrinking_page 1 \<and> scroll_loop shrinking_page = 5"
  by code_simp

end
